theory Spec2Isabelle
  imports Complex_Main
begin

section \<open>Values exchanged with the panel detector\<close>

text \<open>
  The detection client works on what \<^verbatim>\<open>JSON.parse\<close> returns, so the model has a type of
  parsed JSON values. An object lists its members in the order of the text; a later member
  with the same key overrides an earlier one, as \<^verbatim>\<open>JSON.parse\<close> does. At run time a
  \<^verbatim>\<open>Panel\<close> is such a parsed object: the client returns the parsed elements themselves.
\<close>

datatype json =
    JNull
  | JBool bool
  | JNum real
  | JStr string
  | JArr "json list"
  | JObj "(string \<times> json) list"

text \<open>The error with which the provider call rejects: an \<^verbatim>\<open>Error\<close> object with its
  \<^verbatim>\<open>message\<close>, which is not enumerable, and its enumerable own properties (such as the
  \<^verbatim>\<open>name\<close> and the \<^verbatim>\<open>status\<close> of the client library's error), each holding a string or
  an integer.\<close>

datatype prop_value = PStr string | PNum int

datatype rejection =
  Rejection (rejection_message: string) (enumerable: "(string \<times> prop_value) list")

text \<open>What the \<^verbatim>\<open>try\<close> block of \<^verbatim>\<open>getPanelsForPage\<close> can throw: the rejection of the
  provider call, the \<^verbatim>\<open>SyntaxError\<close> of \<^verbatim>\<open>JSON.parse\<close>, and the \<^verbatim>\<open>TypeError\<close> of
  reading a property of \<^verbatim>\<open>null\<close> or of \<^verbatim>\<open>undefined\<close>.\<close>

datatype thrown = ApiError rejection | SyntaxError | TypeError

text \<open>The outcome of \<^verbatim>\<open>JSON.parse(jsonString)\<close>.\<close>

datatype parse_outcome = ParseThrows | Parsed json

text \<open>The outcome of \<^verbatim>\<open>ai.models.generateContent\<close>: a rejection, a response given
  by its trimmed text \<^verbatim>\<open>jsonString\<close> together with what \<^verbatim>\<open>JSON.parse\<close> makes of that
  text, or a response whose \<^verbatim>\<open>text\<close> is \<^verbatim>\<open>undefined\<close>.\<close>

datatype api_outcome =
    Rejected rejection
  | Responded string parse_outcome
  | RespondedWithoutText

definition fallbackPanel :: "json list" where
  "fallbackPanel =
     [JObj [(''x'', JNum 0), (''y'', JNum 0), (''width'', JNum 100), (''height'', JNum 100)]]"

definition rate_limit_message :: string where
  "rate_limit_message =
     ''Limite de requisi'' @ [CHR 0xC3, CHR 0xA7, CHR 0xC3, CHR 0xB5] @
     ''es atingido. A detec'' @ [CHR 0xC3, CHR 0xA7, CHR 0xC3, CHR 0xA3] @
     ''o de painel foi pausada. Tente novamente em alguns instantes.''"

definition generic_failure_message :: string where
  "generic_failure_message =
     ''N'' @ [CHR 0xC3, CHR 0xA3] @ ''o foi poss'' @ [CHR 0xC3, CHR 0xAD] @
     ''vel detectar os pain'' @ [CHR 0xC3, CHR 0xA9] @ ''is da p'' @ [CHR 0xC3, CHR 0xA1] @
     ''gina.''"

text \<open>\<^verbatim>\<open>s.includes(sub)\<close>.\<close>

fun js_includes :: "string \<Rightarrow> string \<Rightarrow> bool" where
  "js_includes [] sub = (sub = [])"
| "js_includes (c # cs) sub = (take (length sub) (c # cs) = sub \<or> js_includes cs sub)"

text \<open>\<^verbatim>\<open>JSON.stringify\<close> on numbers and strings: an integer in decimal digits; a string
  between double quotes, with the double quote, the backslash and the control characters
  escaped.\<close>

definition digit_char :: "nat \<Rightarrow> char" where
  "digit_char n = ''0123456789abcdef'' ! n"

fun show_nat :: "nat \<Rightarrow> string" where
  "show_nat n =
     (if n < 10 then [digit_char n] else show_nat (n div 10) @ [digit_char (n mod 10)])"

definition show_int :: "int \<Rightarrow> string" where
  "show_int i = (if i < 0 then CHR ''-'' # show_nat (nat (- i)) else show_nat (nat i))"

definition escape_char :: "char \<Rightarrow> string" where
  "escape_char c =
     (if c = CHR 0x22 then [CHR 0x5C, CHR 0x22]
      else if c = CHR 0x5C then [CHR 0x5C, CHR 0x5C]
      else if c = CHR 0x08 then [CHR 0x5C, CHR ''b'']
      else if c = CHR 0x09 then [CHR 0x5C, CHR ''t'']
      else if c = CHR 0x0A then [CHR 0x5C, CHR ''n'']
      else if c = CHR 0x0C then [CHR 0x5C, CHR ''f'']
      else if c = CHR 0x0D then [CHR 0x5C, CHR ''r'']
      else if (of_char c :: nat) < 32
      then [CHR 0x5C, CHR ''u'', CHR ''0'', CHR ''0'',
            digit_char ((of_char c :: nat) div 16), digit_char ((of_char c :: nat) mod 16)]
      else [c])"

definition quote :: "string \<Rightarrow> string" where
  "quote s = CHR 0x22 # concat (map escape_char s) @ [CHR 0x22]"

fun stringify_value :: "prop_value \<Rightarrow> string" where
  "stringify_value (PStr s) = quote s"
| "stringify_value (PNum i) = show_int i"

definition stringify_member :: "string \<times> prop_value \<Rightarrow> string" where
  "stringify_member kv = quote (fst kv) @ '':'' @ stringify_value (snd kv)"

fun join_members :: "string list \<Rightarrow> string" where
  "join_members [] = []"
| "join_members [m] = m"
| "join_members (m # ms) = m @ '','' @ join_members ms"

text \<open>\<^verbatim>\<open>JSON.stringify\<close> on an object: its enumerable own properties, in their order.\<close>

definition stringify_object :: "(string \<times> prop_value) list \<Rightarrow> string" where
  "stringify_object props = ''{'' @ join_members (map stringify_member props) @ ''}''"

text \<open>\<^verbatim>\<open>JSON.stringify(error)\<close>: the message and the stack of an \<^verbatim>\<open>Error\<close> are not
  enumerable and are left out; the errors raised by the language itself have no enumerable
  property and serialise to an empty object.\<close>

fun JSON_stringify :: "thrown \<Rightarrow> string" where
  "JSON_stringify (ApiError r) = stringify_object (enumerable r)"
| "JSON_stringify SyntaxError = ''{}''"
| "JSON_stringify TypeError = ''{}''"

text \<open>Property lookup on a parsed object.\<close>

definition own_property :: "(string \<times> json) list \<Rightarrow> string \<Rightarrow> json option" where
  "own_property kvs k = map_of (rev kvs) k"

fun is_number :: "json option \<Rightarrow> bool" where
  "is_number (Some (JNum r)) = True"
| "is_number v = False"

text \<open>The predicate of the \<^verbatim>\<open>filter\<close> call:
  \<^verbatim>\<open>typeof p.x === 'number' && typeof p.y === 'number' && ...\<close>. Reading \<^verbatim>\<open>p.x\<close> throws
  when \<^verbatim>\<open>p\<close> is \<^verbatim>\<open>null\<close>; on a number, string, boolean or array it gives
  \<^verbatim>\<open>undefined\<close>.\<close>

fun panel_check :: "json \<Rightarrow> thrown + bool" where
  "panel_check JNull = Inl TypeError"
| "panel_check (JObj kvs) =
     Inr (is_number (own_property kvs ''x'') \<and> is_number (own_property kvs ''y'') \<and>
          is_number (own_property kvs ''width'') \<and> is_number (own_property kvs ''height''))"
| "panel_check v = Inr False"

fun filter_valid :: "json list \<Rightarrow> thrown + json list" where
  "filter_valid [] = Inr []"
| "filter_valid (p # ps) =
     (case panel_check p of
        Inl e \<Rightarrow> Inl e
      | Inr ok \<Rightarrow>
          (case filter_valid ps of
             Inl e \<Rightarrow> Inl e
           | Inr vs \<Rightarrow> Inr (if ok then p # vs else vs)))"

text \<open>The body of the \<^verbatim>\<open>try\<close> block, from the awaited provider call on.\<close>

fun try_block :: "api_outcome \<Rightarrow> thrown + json list" where
  "try_block (Rejected r) = Inl (ApiError r)"
| "try_block RespondedWithoutText = Inl TypeError"
| "try_block (Responded jsonString parsed) =
     (if jsonString = [] then Inr fallbackPanel
      else
        (case parsed of
           ParseThrows \<Rightarrow> Inl SyntaxError
         | Parsed (JArr detectedPanels) \<Rightarrow>
             (if detectedPanels = [] then Inr fallbackPanel
              else
                (case filter_valid detectedPanels of
                   Inl e \<Rightarrow> Inl e
                 | Inr validPanels \<Rightarrow>
                     Inr (if validPanels \<noteq> [] then validPanels else fallbackPanel)))
         | Parsed v \<Rightarrow> Inr fallbackPanel))"

text \<open>The \<^verbatim>\<open>catch\<close> block: the message of the \<^verbatim>\<open>Error\<close> it throws.\<close>

definition catch_block :: "thrown \<Rightarrow> string" where
  "catch_block e =
     (let errorString = JSON_stringify e in
      if js_includes errorString ''RESOURCE_EXHAUSTED'' \<or> js_includes errorString ''429''
      then rate_limit_message
      else generic_failure_message)"

text \<open>\<^verbatim>\<open>getPanelsForPage\<close>: \<open>Inl\<close> carries the message of the error thrown to the
  caller, \<open>Inr\<close> the panels returned.\<close>

definition getPanelsForPage :: "api_outcome \<Rightarrow> string + json list" where
  "getPanelsForPage outcome =
     (case try_block outcome of
        Inl e \<Rightarrow> Inl (catch_block e)
      | Inr ps \<Rightarrow> Inr ps)"

text \<open>Whether a text holds one of the two rate-limit indicators.\<close>

definition has_indicator :: "string \<Rightarrow> bool" where
  "has_indicator s = (js_includes s ''RESOURCE_EXHAUSTED'' \<or> js_includes s ''429'')"

fun is_array :: "json \<Rightarrow> bool" where
  "is_array (JArr ps) = True"
| "is_array v = False"

text \<open>The elements that pass the numeric field check, for arrays without \<^verbatim>\<open>null\<close>.\<close>

definition valid_panel :: "json \<Rightarrow> bool" where
  "valid_panel p = (panel_check p = Inr True)"

section \<open>The reading view: state\<close>

datatype BookType = Cbz | Epub | Pdf

text \<open>\<^verbatim>\<open>LibraryItem\<close> without its \<^verbatim>\<open>file\<close>, which the view only hands to the backends.\<close>

record LibraryItem =
  item_id :: string
  title :: string
  coverUrl :: string
  btype :: BookType
  item_totalPages :: int

record ComicPage =
  page_id :: string
  url :: string
  page_width :: int
  page_height :: int

datatype ViewMode = PageMode | PanelMode

datatype direction = ZoomIn | ZoomOut

text \<open>The \<^verbatim>\<open>book\<close> property and the \<^verbatim>\<open>useState\<close> cells of \<^verbatim>\<open>ReaderView\<close>. A loaded PDF
  document is kept as its \<^verbatim>\<open>numPages\<close>.\<close>

record ReaderState =
  book :: LibraryItem
  isLoading :: bool
  isPanelDetectionRunning :: bool
  error :: "string option"
  comicPages :: "ComicPage list"
  pdfDoc :: "int option"
  totalEpubPages :: int
  currentPageIndex :: int
  currentPanelIndex :: int
  viewMode :: ViewMode
  panels :: "json list"
  panelsCache :: "string \<rightharpoonup> json list"
  zoom :: real
  isFitToScreen :: bool

definition MIN_ZOOM :: real where "MIN_ZOOM = 1 / 4"
definition MAX_ZOOM :: real where "MAX_ZOOM = 5"
definition ZOOM_STEP :: real where "ZOOM_STEP = 1 / 4"

text \<open>The initial values of the \<^verbatim>\<open>useState\<close> cells, for a view mounted on \<open>b\<close>.\<close>

definition useState_init :: "LibraryItem \<Rightarrow> ReaderState" where
  "useState_init b =
     \<lparr> book = b, isLoading = True, isPanelDetectionRunning = False, error = None,
       comicPages = [], pdfDoc = None, totalEpubPages = 0,
       currentPageIndex = 0, currentPanelIndex = - 1, viewMode = PageMode,
       panels = [], panelsCache = Map.empty, zoom = 1, isFitToScreen = True \<rparr>"

text \<open>The \<^verbatim>\<open>totalPages\<close> memo.\<close>

definition totalPages :: "ReaderState \<Rightarrow> int" where
  "totalPages s =
     (if btype (book s) = Cbz then int (length (comicPages s))
      else if btype (book s) = Pdf \<and> pdfDoc s \<noteq> None then the (pdfDoc s)
      else if btype (book s) = Epub then totalEpubPages s
      else item_totalPages (book s))"

section \<open>The reading view: loading a book\<close>

text \<open>The effect on \<^verbatim>\<open>[book]\<close>: \<^verbatim>\<open>loadBook\<close> up to its first \<^verbatim>\<open>await\<close>, run when the view
  is given the book \<open>b\<close>.\<close>

definition loadBook_reset :: "LibraryItem \<Rightarrow> ReaderState \<Rightarrow> ReaderState" where
  "loadBook_reset b s =
     s\<lparr> book := b, isLoading := True, error := None, comicPages := [], pdfDoc := None,
        currentPageIndex := 0, panelsCache := Map.empty, panels := [],
        viewMode := PageMode, zoom := 1, isFitToScreen := True \<rparr>"

text \<open>What the awaited backend gives \<^verbatim>\<open>loadBook\<close>: a rejection, the pages of a comic
  archive, the page count of a PDF document, or the number of locations of an EPUB. Of the
  EPUB rendition that \<^verbatim>\<open>loadBook\<close> sets up next, the model keeps the \<^verbatim>\<open>relocated\<close>
  callback, which sets the page index to the location reported (the event \<open>Relocated\<close>
  below).\<close>

datatype load_outcome =
    LoadRejected
  | ComicPagesLoaded "ComicPage list"
  | PdfLoaded int
  | EpubLoaded int

definition load_failure_message :: string where
  "load_failure_message =
     ''Failed to load the book. The file might be corrupted or in an unsupported format.''"

text \<open>\<^verbatim>\<open>loadBook\<close> after its \<^verbatim>\<open>await\<close>: the branch of the book's type, the
  \<^verbatim>\<open>catch\<close> and the \<^verbatim>\<open>finally\<close>.\<close>

fun loadBook_done :: "load_outcome \<Rightarrow> ReaderState \<Rightarrow> ReaderState" where
  "loadBook_done LoadRejected s = s\<lparr> error := Some load_failure_message, isLoading := False \<rparr>"
| "loadBook_done (ComicPagesLoaded pages) s = s\<lparr> comicPages := pages, isLoading := False \<rparr>"
| "loadBook_done (PdfLoaded n) s = s\<lparr> pdfDoc := Some n, isLoading := False \<rparr>"
| "loadBook_done (EpubLoaded n) s = s\<lparr> totalEpubPages := n, isLoading := False \<rparr>"

text \<open>Which outcome the \<^verbatim>\<open>loadBook\<close> started for \<open>b\<close> can have.\<close>

fun load_matches :: "LibraryItem \<Rightarrow> load_outcome \<Rightarrow> bool" where
  "load_matches b LoadRejected = True"
| "load_matches b (ComicPagesLoaded pages) = (btype b = Cbz)"
| "load_matches b (PdfLoaded n) = (btype b = Pdf)"
| "load_matches b (EpubLoaded n) = (btype b = Epub)"

section \<open>The reading view: panel detection\<close>

text \<open>\<^verbatim>\<open>xs[i]\<close>, which is \<^verbatim>\<open>undefined\<close> out of range.\<close>

definition js_index :: "'a list \<Rightarrow> int \<Rightarrow> 'a option" where
  "js_index xs i = (if 0 \<le> i \<and> i < int (length xs) then Some (xs ! nat i) else None)"

text \<open>\<^verbatim>\<open>handleDetectPanels\<close> up to its first \<^verbatim>\<open>await\<close>. The second component is the page
  captured by the request it starts, if it starts one.\<close>

definition handleDetectPanels :: "ReaderState \<Rightarrow> ReaderState \<times> ComicPage option" where
  "handleDetectPanels s =
     (if btype (book s) \<noteq> Cbz \<or> comicPages s = [] then (s, None)
      else
        (case js_index (comicPages s) (currentPageIndex s) of
           None \<Rightarrow> (s, None)
         | Some currentPage \<Rightarrow>
             (if url currentPage = [] then (s, None)
              else
                (case panelsCache s (page_id currentPage) of
                   Some cached \<Rightarrow>
                     (s\<lparr> panels := cached, viewMode := PanelMode, currentPanelIndex := 0 \<rparr>,
                      None)
                 | None \<Rightarrow>
                     (s\<lparr> isPanelDetectionRunning := True, error := None \<rparr>,
                      Some currentPage)))))"

text \<open>What the two awaited calls give: \<^verbatim>\<open>resizeImageForGemini\<close> rejects (with the message
  of its error, empty when the rejection carries none), or the provider call settles.\<close>

datatype detection_outcome = ResizeRejected string | Api api_outcome

fun awaited :: "detection_outcome \<Rightarrow> string + json list" where
  "awaited (ResizeRejected m) = Inl m"
| "awaited (Api outcome) = getPanelsForPage outcome"

definition no_panels_message :: string where
  "no_panels_message = ''No panels were detected on this page.''"

definition could_not_detect_message :: string where
  "could_not_detect_message = ''Could not detect panels for this page.''"

text \<open>The \<^verbatim>\<open>catch\<close> and \<^verbatim>\<open>finally\<close> of \<^verbatim>\<open>handleDetectPanels\<close>, for an error with message
  \<open>m\<close>.\<close>

definition detection_failed :: "string \<Rightarrow> ReaderState \<Rightarrow> ReaderState" where
  "detection_failed m s =
     s\<lparr> error := Some (if m = [] then could_not_detect_message else m),
        viewMode := PageMode, isPanelDetectionRunning := False \<rparr>"

text \<open>\<^verbatim>\<open>handleDetectPanels\<close> after its awaits, in the closure that captured
  \<open>currentPage\<close>; \<open>s\<close> is the state when the request settles.\<close>

definition handleDetectPanels_resume ::
    "ComicPage \<Rightarrow> detection_outcome \<Rightarrow> ReaderState \<Rightarrow> ReaderState" where
  "handleDetectPanels_resume currentPage outcome s =
     (case awaited outcome of
        Inl m \<Rightarrow> detection_failed m s
      | Inr detectedPanels \<Rightarrow>
          (if detectedPanels \<noteq> [] then
             s\<lparr> panels := detectedPanels,
                panelsCache := (panelsCache s)(page_id currentPage \<mapsto> detectedPanels),
                viewMode := PanelMode, currentPanelIndex := 0,
                isPanelDetectionRunning := False \<rparr>
           else detection_failed no_panels_message s))"

section \<open>The reading view: navigation, zoom and view mode\<close>

definition goToNext :: "ReaderState \<Rightarrow> ReaderState" where
  "goToNext s =
     (if viewMode s = PanelMode \<and> currentPanelIndex s < int (length (panels s)) - 1
      then s\<lparr> currentPanelIndex := currentPanelIndex s + 1 \<rparr>
      else if currentPageIndex s < totalPages s - 1
      then
        (let s' = s\<lparr> currentPageIndex := currentPageIndex s + 1, panels := [],
                      currentPanelIndex := - 1 \<rparr>
         in if btype (book s) \<noteq> Epub then s'\<lparr> viewMode := PageMode \<rparr> else s')
      else s)"

definition goToPrev :: "ReaderState \<Rightarrow> ReaderState" where
  "goToPrev s =
     (if viewMode s = PanelMode \<and> currentPanelIndex s > 0
      then s\<lparr> currentPanelIndex := currentPanelIndex s - 1 \<rparr>
      else if currentPageIndex s > 0
      then
        (let s' = s\<lparr> currentPageIndex := currentPageIndex s - 1, panels := [],
                      currentPanelIndex := - 1 \<rparr>
         in if btype (book s) \<noteq> Epub then s'\<lparr> viewMode := PageMode \<rparr> else s')
      else s)"

definition handleZoom :: "direction \<Rightarrow> ReaderState \<Rightarrow> ReaderState" where
  "handleZoom d s =
     (let newZoom = (if d = ZoomIn then zoom s + ZOOM_STEP else zoom s - ZOOM_STEP)
      in s\<lparr> isFitToScreen := False, zoom := max MIN_ZOOM (min MAX_ZOOM newZoom) \<rparr>)"

definition toggleFitToScreen :: "ReaderState \<Rightarrow> ReaderState" where
  "toggleFitToScreen s =
     (let s' = s\<lparr> isFitToScreen := \<not> isFitToScreen s \<rparr>
      in if \<not> isFitToScreen s then s'\<lparr> zoom := 1 \<rparr> else s')"

text \<open>The three inline handlers of the footer: the page view button, the panel view button
  (which may start a detection) and the zoom label.\<close>

definition pageViewClick :: "ReaderState \<Rightarrow> ReaderState" where
  "pageViewClick s = s\<lparr> viewMode := PageMode, currentPanelIndex := - 1 \<rparr>"

definition panelViewClick :: "ReaderState \<Rightarrow> ReaderState \<times> ComicPage option" where
  "panelViewClick s =
     (if panels s \<noteq> [] then (s\<lparr> viewMode := PanelMode, currentPanelIndex := 0 \<rparr>, None)
      else handleDetectPanels s)"

definition zoomLabelClick :: "ReaderState \<Rightarrow> ReaderState" where
  "zoomLabelClick s = s\<lparr> zoom := 1 \<rparr>"

section \<open>The reading view: runs\<close>

text \<open>
  A configuration is the state of the view together with the continuations that are still
  to run: the books whose \<^verbatim>\<open>loadBook\<close> is awaiting its backend, and the pages captured by
  the detection requests in flight. It also logs the identity of the page of every detection
  started since the view was mounted (the provider is called once the image of the page is
  resized). An event is a change of the \<^verbatim>\<open>book\<close> property, a user
  action, a backend settling one of the pending calls, or the EPUB rendition reporting its
  location. \<open>step\<close> is \<open>None\<close> where the event cannot happen: the control is not rendered
  or is disabled, or no such call is pending.

  Two events are allowed more often than the application produces them. The effect of the
  view provides for a change of its book, but the application mounts a new view for every
  book it opens and never gives a mounted view another book: its runs are those without
  \<open>BookChanged\<close>. And \<open>Relocated\<close> is allowed for every EPUB, also before the rendition
  exists.
\<close>

record config =
  cstate :: ReaderState
  loading :: "LibraryItem list"
  detecting :: "ComicPage list"
  issued :: "string list"

datatype event =
    BookChanged LibraryItem
  | LoadSettled nat load_outcome
  | Relocated int
  | NextPressed
  | PrevPressed
  | DetectPressed
  | PageViewPressed
  | PanelViewPressed
  | ZoomPressed direction
  | ZoomLabelPressed
  | FitPressed
  | DetectionSettled nat detection_outcome

definition remove_nth :: "nat \<Rightarrow> 'a list \<Rightarrow> 'a list" where
  "remove_nth i xs = take i xs @ drop (Suc i) xs"

definition started :: "config \<Rightarrow> ReaderState \<times> ComicPage option \<Rightarrow> config" where
  "started c r =
     c\<lparr> cstate := fst r,
        detecting := detecting c @ (case snd r of None \<Rightarrow> [] | Some p \<Rightarrow> [p]),
        issued := issued c @ (case snd r of None \<Rightarrow> [] | Some p \<Rightarrow> [page_id p]) \<rparr>"

fun step :: "event \<Rightarrow> config \<Rightarrow> config option" where
  "step (BookChanged b) c =
     Some (c\<lparr> cstate := loadBook_reset b (cstate c), loading := loading c @ [b] \<rparr>)"
| "step (LoadSettled i r) c =
     (if i < length (loading c) \<and> load_matches (loading c ! i) r
      then Some (c\<lparr> cstate := loadBook_done r (cstate c),
                     loading := remove_nth i (loading c) \<rparr>)
      else None)"
| "step (Relocated n) c =
     (if btype (book (cstate c)) = Epub
      then Some (c\<lparr> cstate := (cstate c)\<lparr> currentPageIndex := n \<rparr> \<rparr>)
      else None)"
| "step NextPressed c = Some (c\<lparr> cstate := goToNext (cstate c) \<rparr>)"
| "step PrevPressed c = Some (c\<lparr> cstate := goToPrev (cstate c) \<rparr>)"
| "step DetectPressed c =
     (if btype (book (cstate c)) = Cbz \<and> \<not> isPanelDetectionRunning (cstate c)
      then Some (started c (handleDetectPanels (cstate c)))
      else None)"
| "step PageViewPressed c =
     (if btype (book (cstate c)) = Cbz
      then Some (c\<lparr> cstate := pageViewClick (cstate c) \<rparr>)
      else None)"
| "step PanelViewPressed c =
     (if btype (book (cstate c)) = Cbz
      then Some (started c (panelViewClick (cstate c)))
      else None)"
| "step (ZoomPressed d) c =
     (if btype (book (cstate c)) \<noteq> Epub
      then Some (c\<lparr> cstate := handleZoom d (cstate c) \<rparr>)
      else None)"
| "step ZoomLabelPressed c =
     (if btype (book (cstate c)) \<noteq> Epub
      then Some (c\<lparr> cstate := zoomLabelClick (cstate c) \<rparr>)
      else None)"
| "step FitPressed c =
     (if btype (book (cstate c)) \<noteq> Epub
      then Some (c\<lparr> cstate := toggleFitToScreen (cstate c) \<rparr>)
      else None)"
| "step (DetectionSettled i r) c =
     (if i < length (detecting c)
      then Some (c\<lparr> cstate := handleDetectPanels_resume (detecting c ! i) r (cstate c),
                     detecting := remove_nth i (detecting c) \<rparr>)
      else None)"

fun run :: "event list \<Rightarrow> config \<Rightarrow> config option" where
  "run [] c = Some c"
| "run (e # es) c = (case step e c of None \<Rightarrow> None | Some c' \<Rightarrow> run es c')"

text \<open>Mounting the view on \<open>b\<close>: the initial cells, and the effect that starts loading.\<close>

definition mount :: "LibraryItem \<Rightarrow> config" where
  "mount b =
     \<lparr> cstate = loadBook_reset b (useState_init b), loading = [b], detecting = [],
       issued = [] \<rparr>"

definition reader_after :: "event list \<Rightarrow> LibraryItem \<Rightarrow> ReaderState option" where
  "reader_after es b = map_option cstate (run es (mount b))"

definition cached :: "string \<Rightarrow> ReaderState \<Rightarrow> json list option" where
  "cached k s = panelsCache s k"

fun is_BookChanged :: "event \<Rightarrow> bool" where
  "is_BookChanged (BookChanged b) = True"
| "is_BookChanged e = False"

definition no_book_change :: "event list \<Rightarrow> bool" where
  "no_book_change es = list_all (\<lambda>e. \<not> is_BookChanged e) es"



text \<open>A comic archive of two pages, a second archive, and two panels, for the examples.\<close>

definition page0 :: ComicPage where
  "page0 = \<lparr> page_id = ''001.jpg'', url = ''blob:1'', page_width = 800, page_height = 1200 \<rparr>"

definition page1 :: ComicPage where
  "page1 = \<lparr> page_id = ''002.jpg'', url = ''blob:2'', page_width = 800, page_height = 1200 \<rparr>"

definition demo_book :: LibraryItem where
  "demo_book =
     \<lparr> item_id = ''one.cbz-1000'', title = ''one'', coverUrl = [], btype = Cbz,
       item_totalPages = 2 \<rparr>"

definition other_book :: LibraryItem where
  "other_book =
     \<lparr> item_id = ''two.cbz-2000'', title = ''two'', coverUrl = [], btype = Cbz,
       item_totalPages = 3 \<rparr>"

definition panelA :: json where
  "panelA = JObj [(''x'', JNum 0), (''y'', JNum 0), (''width'', JNum 50), (''height'', JNum 50)]"

definition panelB :: json where
  "panelB = JObj [(''x'', JNum 50), (''y'', JNum 0), (''width'', JNum 50), (''height'', JNum 50)]"

text \<open>The provider answering with the two panels, and rejecting with a rate limit.\<close>

definition two_panels_text :: string where
  "two_panels_text =
     ''[{\"x\":0,\"y\":0,\"width\":50,\"height\":50},{\"x\":50,\"y\":0,\"width\":50,\"height\":50}]''"

definition two_panels_response :: api_outcome where
  "two_panels_response = Responded two_panels_text (Parsed (JArr [panelA, panelB]))"

definition two_panels :: detection_outcome where
  "two_panels = Api two_panels_response"

text \<open>Two rejections of a request over quota. The first has the status among its
  enumerable properties. The second carries the status and the provider's code in its
  message only.\<close>

definition quota_error :: rejection where
  "quota_error =
     Rejection
       ''{\"error\":{\"code\":429,\"message\":\"Resource has been exhausted\",\"status\":\"RESOURCE_EXHAUSTED\"}}''
       [(''name'', PStr ''ApiError''), (''status'', PNum 429)]"


definition rate_limited :: detection_outcome where
  "rate_limited = Api (Rejected quota_error)"



text \<open>The view after the two pages have loaded, and then in panel view on the first page.\<close>

definition demo_loaded :: ReaderState where
  "demo_loaded =
     loadBook_done (ComicPagesLoaded [page0, page1])
       (loadBook_reset demo_book (useState_init demo_book))"

definition demo_panel_view :: ReaderState where
  "demo_panel_view =
     handleDetectPanels_resume page0 two_panels (fst (handleDetectPanels demo_loaded))"

text \<open>Runs: zooming in once; reaching the second panel of the first page.\<close>

definition zoomed_trace :: "event list" where
  "zoomed_trace = [LoadSettled 0 (ComicPagesLoaded [page0, page1]), ZoomPressed ZoomIn]"


text \<open>A configuration in panel view on the first page with nothing pending, and a run that
  leaves the page and comes back.\<close>

definition demo_config :: config where
  "demo_config =
     \<lparr> cstate = demo_panel_view, loading = [], detecting = [], issued = [page_id page0] \<rparr>"

definition browse_trace :: "event list" where
  "browse_trace = [NextPressed, NextPressed, PrevPressed, PrevPressed]"



definition retry_trace :: "event list" where
  "retry_trace =
     [LoadSettled 0 (ComicPagesLoaded [page0, page1]), DetectPressed,
      DetectionSettled 0 rate_limited, DetectPressed, DetectionSettled 0 two_panels]"

section \<open>Comic archives\<close>

text \<open>An entry of the loaded archive: its name, whether it is a directory, and what decoding
  it as an image gives (the object URL and the natural size), \<open>None\<close> when reading the blob
  or loading the image fails.\<close>

record ZipEntry =
  entry_name :: string
  dir :: bool
  decoded :: "(string \<times> int \<times> int) option"

definition ascii_lower :: "char \<Rightarrow> char" where
  "ascii_lower ch =
     (case map_of (zip ''ABCDEFGHIJKLMNOPQRSTUVWXYZ'' ''abcdefghijklmnopqrstuvwxyz'') ch of
        None \<Rightarrow> ch
      | Some l \<Rightarrow> l)"

definition ends_with :: "string \<Rightarrow> string \<Rightarrow> bool" where
  "ends_with s suf = (length suf \<le> length s \<and> drop (length s - length suf) s = suf)"

text \<open>The test \<^verbatim>\<open>/\.(jpe?g|png|gif|webp)$/i\<close>.\<close>

definition is_image_name :: "string \<Rightarrow> bool" where
  "is_image_name name =
     (let l = map ascii_lower name in
      ends_with l ''.jpg'' \<or> ends_with l ''.jpeg'' \<or> ends_with l ''.png'' \<or>
      ends_with l ''.gif'' \<or> ends_with l ''.webp'')"

text \<open>\<^verbatim>\<open>sort\<close> with the comparator \<^verbatim>\<open>a.name.localeCompare(b.name, undefined, {numeric: true})\<close>.
  The comparison of names is the host's collation, so it is a parameter \<open>cmp\<close>; the sort is
  stable.\<close>

fun insert_by :: "(string \<Rightarrow> string \<Rightarrow> int) \<Rightarrow> ZipEntry \<Rightarrow> ZipEntry list \<Rightarrow> ZipEntry list" where
  "insert_by cmp a [] = [a]"
| "insert_by cmp a (b # bs) =
     (if cmp (entry_name a) (entry_name b) \<le> 0 then a # b # bs else b # insert_by cmp a bs)"

text \<open>The predicate of the \<^verbatim>\<open>filter\<close> call of \<^verbatim>\<open>getSortedImageFiles\<close>.\<close>

definition is_image_file :: "ZipEntry \<Rightarrow> bool" where
  "is_image_file f = (\<not> dir f \<and> is_image_name (entry_name f))"

definition getSortedImageFiles :: "(string \<Rightarrow> string \<Rightarrow> int) \<Rightarrow> ZipEntry list \<Rightarrow> ZipEntry list" where
  "getSortedImageFiles cmp files = foldr (insert_by cmp) (filter is_image_file files) []"

text \<open>One element of \<^verbatim>\<open>pagePromises\<close>: the page, or \<^verbatim>\<open>null\<close> when the entry fails to
  decode.\<close>

definition page_of :: "ZipEntry \<Rightarrow> ComicPage option" where
  "page_of f =
     (case decoded f of
        None \<Rightarrow> None
      | Some (u, w, h) \<Rightarrow>
          Some \<lparr> page_id = entry_name f, url = u, page_width = w, page_height = h \<rparr>)"

definition getComicPages :: "(string \<Rightarrow> string \<Rightarrow> int) \<Rightarrow> ZipEntry list \<Rightarrow> ComicPage list" where
  "getComicPages cmp files = List.map_filter page_of (getSortedImageFiles cmp files)"

text \<open>The \<^verbatim>\<open>totalPages\<close> that \<^verbatim>\<open>createLibraryItem\<close> records for a comic archive.\<close>

definition cbz_totalPages :: "(string \<Rightarrow> string \<Rightarrow> int) \<Rightarrow> ZipEntry list \<Rightarrow> int" where
  "cbz_totalPages cmp files = int (length (getSortedImageFiles cmp files))"

text \<open>An archive for the examples, with an entry that does not decode, and a comparison of
  names by their length, which orders these names as the numeric collation does.\<close>

definition demo_compare :: "string \<Rightarrow> string \<Rightarrow> int" where
  "demo_compare a b = int (length a) - int (length b)"

definition demo_archive :: "ZipEntry list" where
  "demo_archive =
     [\<lparr> entry_name = ''100.jpeg'', dir = False, decoded = Some (''blob:100'', 800, 1200) \<rparr>,
      \<lparr> entry_name = ''art/'', dir = True, decoded = None \<rparr>,
      \<lparr> entry_name = ''10.PNG'', dir = False, decoded = None \<rparr>,
      \<lparr> entry_name = ''notes.txt'', dir = False, decoded = None \<rparr>,
      \<lparr> entry_name = ''2.jpg'', dir = False, decoded = Some (''blob:2'', 800, 1200) \<rparr>]"

definition decodes :: "ZipEntry \<Rightarrow> bool" where
  "decodes f = (decoded f \<noteq> None)"

text \<open>The order of two names under the comparator, and the comparators that are total
  preorders, as a collation is.\<close>

definition in_order :: "(string \<Rightarrow> string \<Rightarrow> int) \<Rightarrow> string \<Rightarrow> string \<Rightarrow> bool" where
  "in_order cmp a b = (cmp a b \<le> 0)"

definition total_preorder :: "(string \<Rightarrow> string \<Rightarrow> int) \<Rightarrow> bool" where
  "total_preorder cmp =
     ((\<forall>a b. in_order cmp a b \<or> in_order cmp b a) \<and>
      (\<forall>a b c. in_order cmp a b \<longrightarrow> in_order cmp b c \<longrightarrow> in_order cmp a c))"

section \<open>Invariants of the runs\<close>





section \<open>The detection client\<close>

lemma filter_valid_no_null:
  "JNull \<notin> set ps \<Longrightarrow> filter_valid ps = Inr (filter valid_panel ps)"
proof (induction ps)
  case Nil
  show ?case by simp
next
  case (Cons p ps)
  then have ih: "filter_valid ps = Inr (filter valid_panel ps)" by simp
  from Cons.prems have "p \<noteq> JNull" by auto
  then have "\<exists>ok. panel_check p = Inr ok"
    by (cases p) auto
  then obtain ok where ok: "panel_check p = Inr ok" ..
  then have "valid_panel p = ok" by (simp add: valid_panel_def)
  with ok show ?case by (simp add: ih)
qed

lemma getPanels_nonempty: "getPanelsForPage out = Inr ps \<Longrightarrow> ps \<noteq> []"
  by (cases out)
     (auto simp: getPanelsForPage_def fallbackPanel_def
           split: if_splits sum.splits parse_outcome.splits json.splits)

lemma js_includes_iff: "js_includes s sub = (\<exists>p q. s = p @ sub @ q)"
proof (induction s)
  case Nil
  show ?case by auto
next
  case (Cons c cs)
  show ?case
  proof
    assume "js_includes (c # cs) sub"
    then consider "take (length sub) (c # cs) = sub" | "js_includes cs sub" by auto
    then show "\<exists>p q. c # cs = p @ sub @ q"
    proof cases
      case 1
      then have "c # cs = [] @ sub @ drop (length sub) (c # cs)"
        by (metis append_Nil append_take_drop_id)
      then show ?thesis by blast
    next
      case 2
      with Cons obtain p q where "cs = p @ sub @ q" by auto
      then have "c # cs = (c # p) @ sub @ q" by simp
      then show ?thesis by blast
    qed
  next
    assume "\<exists>p q. c # cs = p @ sub @ q"
    then obtain p q where pq: "c # cs = p @ sub @ q" by auto
    show "js_includes (c # cs) sub"
    proof (cases p)
      case Nil
      with pq have "take (length sub) (c # cs) = sub" by simp
      then show ?thesis by simp
    next
      case (Cons d p')
      with pq have "cs = p' @ sub @ q" by simp
      with Cons.IH show ?thesis by auto
    qed
  qed
qed

lemma js_includes_appendI: "js_includes b sub \<Longrightarrow> js_includes (a @ b @ c) sub"
proof -
  assume "js_includes b sub"
  then obtain p q where "b = p @ sub @ q" by (auto simp: js_includes_iff)
  then have "a @ b @ c = (a @ p) @ sub @ (q @ c)" by simp
  then show ?thesis unfolding js_includes_iff by blast
qed

lemma join_members_mem: "m \<in> set ms \<Longrightarrow> \<exists>p q. join_members ms = p @ m @ q"
proof (induction ms rule: join_members.induct)
  case 1
  then show ?case by simp
next
  case (2 m')
  then have "join_members [m'] = [] @ m @ []" by simp
  then show ?case by blast
next
  case (3 m' n ns)
  show ?case
  proof (cases "m = m'")
    case True
    then have "join_members (m' # n # ns) = [] @ m @ ('','' @ join_members (n # ns))" by simp
    then show ?thesis by blast
  next
    case False
    with 3 obtain p q where "join_members (n # ns) = p @ m @ q" by auto
    then have "join_members (m' # n # ns) = (m' @ '','' @ p) @ m @ q" by simp
    then show ?thesis by blast
  qed
qed

lemma stringify_object_value:
  assumes "(k, v) \<in> set props" and "js_includes (stringify_value v) sub"
  shows "js_includes (stringify_object props) sub"
proof -
  from assms(1) have "stringify_member (k, v) \<in> set (map stringify_member props)" by force
  then obtain p q where "join_members (map stringify_member props) = p @ stringify_member (k, v) @ q"
    using join_members_mem by blast
  then have "stringify_object props =
      (''{'' @ p @ quote k @ '':'') @ stringify_value v @ (q @ ''}'')"
    by (simp add: stringify_object_def stringify_member_def)
  then show ?thesis using js_includes_appendI[OF assms(2)] by metis
qed




lemma show_int_429: "show_int 429 = ''429''"
  by (simp add: show_int_def digit_char_def)

lemma catch_block_indicator:
  "catch_block e =
     (if has_indicator (JSON_stringify e) then rate_limit_message else generic_failure_message)"
  by (simp add: catch_block_def has_indicator_def)

lemma rejected_message: "getPanelsForPage (Rejected e) = Inl (catch_block (ApiError e))"
  by (simp add: getPanelsForPage_def)

lemma status_429_rate_limited:
  "(k, PNum 429) \<in> set (enumerable e) \<Longrightarrow>
   getPanelsForPage (Rejected e) = Inl rate_limit_message"
proof -
  assume a: "(k, PNum 429) \<in> set (enumerable e)"
  have "js_includes (stringify_value (PNum 429)) ''429''"
    by (simp add: show_int_429)
  from stringify_object_value[OF a this]
  show ?thesis by (simp add: rejected_message catch_block_indicator has_indicator_def)
qed


lemma awaited_rate_limited: "awaited rate_limited = Inl rate_limit_message"
proof -
  have "(''status'', PNum 429) \<in> set (enumerable quota_error)"
    by (simp add: quota_error_def)
  from status_429_rate_limited[OF this] show ?thesis by (simp add: rate_limited_def)
qed

section \<open>The navigation invariant\<close>




















lemmas run_defs =
  reader_after_def mount_def useState_init_def loadBook_reset_def remove_nth_def started_def
  handleDetectPanels_def handleDetectPanels_resume_def detection_failed_def goToNext_def
  goToPrev_def totalPages_def js_index_def getPanelsForPage_def catch_block_def
  demo_book_def other_book_def page0_def page1_def panelA_def panelB_def two_panels_def
  two_panels_response_def two_panels_text_def
  awaited_rate_limited own_property_def fallbackPanel_def




section \<open>What the detection client returns\<close>

text \<open>
  Claim C5, as amended. When the trimmed text of the response is empty, or parses to a JSON
  value that is not an array, or to an empty array, or to an array without \<^verbatim>\<open>null\<close>
  in which no element has the four numeric fields, the client returns exactly the fallback
  panel list. When it parses to an array without \<^verbatim>\<open>null\<close> with at least one valid
  element, the client returns exactly the valid elements, in their order. A text that is
  not empty and does not parse is raised as the generic failure. Every list the client
  returns is non-empty.
\<close>

theorem getPanelsForPage_response:
  "getPanelsForPage (Responded [] parsed) = Inr fallbackPanel \<and>
   (jsonString \<noteq> [] \<longrightarrow>
      getPanelsForPage (Responded jsonString ParseThrows) = Inl generic_failure_message \<and>
      (\<not> is_array v \<longrightarrow>
         getPanelsForPage (Responded jsonString (Parsed v)) = Inr fallbackPanel) \<and>
      getPanelsForPage (Responded jsonString (Parsed (JArr []))) = Inr fallbackPanel \<and>
      (JNull \<notin> set ps \<longrightarrow>
         getPanelsForPage (Responded jsonString (Parsed (JArr ps))) =
           Inr (if filter valid_panel ps = [] then fallbackPanel else filter valid_panel ps))) \<and>
   (getPanelsForPage outcome = Inr qs \<longrightarrow> qs \<noteq> [])"
proof -
  have empty: "getPanelsForPage (Responded [] parsed) = Inr fallbackPanel"
    by (simp add: getPanelsForPage_def)
  have throws: "getPanelsForPage (Responded jsonString ParseThrows) = Inl generic_failure_message"
    if "jsonString \<noteq> []"
    using that by (simp add: getPanelsForPage_def catch_block_def)
  have other: "getPanelsForPage (Responded jsonString (Parsed v)) = Inr fallbackPanel"
    if "jsonString \<noteq> []" "\<not> is_array v"
    using that by (cases v) (simp_all add: getPanelsForPage_def)
  have none: "getPanelsForPage (Responded jsonString (Parsed (JArr []))) = Inr fallbackPanel"
    if "jsonString \<noteq> []"
    using that by (simp add: getPanelsForPage_def)
  have some: "getPanelsForPage (Responded jsonString (Parsed (JArr ps))) =
           Inr (if filter valid_panel ps = [] then fallbackPanel else filter valid_panel ps)"
    if "jsonString \<noteq> []" "JNull \<notin> set ps"
    using that
    by (cases "ps = []") (simp_all add: getPanelsForPage_def filter_valid_no_null)
  from empty throws other none some getPanels_nonempty show ?thesis by blast
qed

text \<open>An array whose only element is \<^verbatim>\<open>null\<close>, an array with a \<^verbatim>\<open>null\<close> beside a
  valid panel, and a text that is not JSON: the client raises the generic failure, where
  the claim has it return the fallback or the valid elements.\<close>

theorem getPanelsForPage_response_counterexample:
  "getPanelsForPage (Responded ''[null]'' (Parsed (JArr [JNull]))) = Inl generic_failure_message \<and>
   getPanelsForPage (Responded ''[null,{\"x\":0,\"y\":0,\"width\":50,\"height\":50}]''
       (Parsed (JArr [JNull, panelA]))) = Inl generic_failure_message \<and>
   getPanelsForPage (Responded ''oops'' ParseThrows) = Inl generic_failure_message"
  by (simp add: getPanelsForPage_def catch_block_def)

text \<open>An object, an array without a valid element, and an array with two valid elements
  among four.\<close>

theorem getPanelsForPage_response_witness:
  "getPanelsForPage (Responded ''{}'' (Parsed (JObj []))) = Inr fallbackPanel \<and>
   getPanelsForPage (Responded ''[{\"x\":0},7]'' (Parsed (JArr [JObj [(''x'', JNum 0)], JNum 7])))
     = Inr fallbackPanel \<and>
   getPanelsForPage
     (Responded ''[true,{\"x\":0,\"y\":0,\"width\":50,\"height\":50},\"a\",{\"x\":50,\"y\":0,\"width\":50,\"height\":50}]''
        (Parsed (JArr [JBool True, panelA, JStr ''a'', panelB])))
     = Inr [panelA, panelB] \<and>
   [panelA, panelB] \<noteq> []"
proof -
  have v1: "filter valid_panel [JObj [(''x'', JNum 0)], JNum 7] = []"
    by (simp add: valid_panel_def own_property_def)
  have v2: "filter valid_panel [JBool True, panelA, JStr ''a'', panelB] = [panelA, panelB]"
    by (simp add: valid_panel_def own_property_def panelA_def panelB_def)
  have n: "JNull \<noteq> panelA" "JNull \<noteq> panelB"
    by (simp_all add: panelA_def panelB_def)
  have a: "getPanelsForPage (Responded ''{}'' (Parsed (JObj []))) = Inr fallbackPanel"
    using getPanelsForPage_response[of _ "''{}''" "JObj []"] by simp
  have b: "getPanelsForPage (Responded ''[{\"x\":0},7]'' (Parsed (JArr [JObj [(''x'', JNum 0)], JNum 7])))
     = Inr fallbackPanel"
    using getPanelsForPage_response[of _ "''[{\"x\":0},7]''" _ "[JObj [(''x'', JNum 0)], JNum 7]"] v1
    by simp
  have c: "getPanelsForPage
     (Responded ''[true,{\"x\":0,\"y\":0,\"width\":50,\"height\":50},\"a\",{\"x\":50,\"y\":0,\"width\":50,\"height\":50}]''
        (Parsed (JArr [JBool True, panelA, JStr ''a'', panelB])))
     = Inr [panelA, panelB]"
    using getPanelsForPage_response[of _ "''[true,{\"x\":0,\"y\":0,\"width\":50,\"height\":50},\"a\",{\"x\":50,\"y\":0,\"width\":50,\"height\":50}]''" _ "[JBool True, panelA, JStr ''a'', panelB]"] v2 n
    by simp
  from c have d: "[panelA, panelB] \<noteq> []"
    using getPanelsForPage_response[of _ _ _ _ "(Responded ''[true,{\"x\":0,\"y\":0,\"width\":50,\"height\":50},\"a\",{\"x\":50,\"y\":0,\"width\":50,\"height\":50}]''
        (Parsed (JArr [JBool True, panelA, JStr ''a'', panelB])))" "[panelA, panelB]"] by blast
  from a b c d show ?thesis by blast
qed

section \<open>A failed detection\<close>




lemma request_started:
  "handleDetectPanels s = (s1, Some p) \<Longrightarrow>
     s1 = s\<lparr> isPanelDetectionRunning := True, error := None \<rparr> \<and>
     btype (book s) = Cbz \<and> js_index (comicPages s) (currentPageIndex s) = Some p \<and>
     url p \<noteq> [] \<and> panelsCache s (page_id p) = None"
  by (auto simp: handleDetectPanels_def split: if_splits option.splits)




section \<open>Fit to screen\<close>

lemmas zoom_defs = handleZoom_def toggleFitToScreen_def MIN_ZOOM_def MAX_ZOOM_def ZOOM_STEP_def

text \<open>
  Claim C4, as amended. \<^verbatim>\<open>toggleFitToScreen\<close> flips the fit flag; when the flip turns fit
  on the zoom becomes \<open>1\<close>, and when it turns fit off the zoom is left as it was.
\<close>

theorem toggleFitToScreen_zoom:
  "isFitToScreen (toggleFitToScreen s) = (\<not> isFitToScreen s) \<and>
   (\<not> isFitToScreen s \<longrightarrow> zoom (toggleFitToScreen s) = 1) \<and>
   (isFitToScreen s \<longrightarrow> zoom (toggleFitToScreen s) = zoom s)"
  by (simp add: toggleFitToScreen_def Let_def)

text \<open>After one zoom in the zoom is \<open>5/4\<close> with fit off; turning fit on changes the zoom
  to \<open>1\<close>, where the claim has it unchanged.\<close>

theorem toggleFitToScreen_zoom_counterexample:
  "map_option isFitToScreen (reader_after zoomed_trace demo_book) = Some False \<and>
   map_option zoom (reader_after zoomed_trace demo_book) = Some (5 / 4) \<and>
   map_option isFitToScreen (reader_after (zoomed_trace @ [FitPressed]) demo_book) = Some True \<and>
   map_option zoom (reader_after (zoomed_trace @ [FitPressed]) demo_book) = Some 1"
  by (simp add: zoomed_trace_def run_defs zoom_defs)

text \<open>Turning fit on after a zoom in, and turning fit off on the loaded view.\<close>

theorem toggleFitToScreen_zoom_witness:
  "isFitToScreen (toggleFitToScreen (handleZoom ZoomIn demo_loaded)) \<and>
   zoom (toggleFitToScreen (handleZoom ZoomIn demo_loaded)) = 1 \<and>
   \<not> isFitToScreen (toggleFitToScreen demo_loaded) \<and>
   zoom (toggleFitToScreen demo_loaded) = zoom demo_loaded"
proof -
  have a: "\<not> isFitToScreen (handleZoom ZoomIn demo_loaded)"
    by (simp add: handleZoom_def Let_def)
  have b: "isFitToScreen demo_loaded"
    by (simp add: demo_loaded_def loadBook_reset_def)
  from toggleFitToScreen_zoom[of "handleZoom ZoomIn demo_loaded"] a
       toggleFitToScreen_zoom[of demo_loaded] b
  show ?thesis by blast
qed

section \<open>Turning pages at the boundaries\<close>

text \<open>
  Claim C8. In page view \<^verbatim>\<open>goToNext\<close> on the last page and \<^verbatim>\<open>goToPrev\<close> on the first
  page leave the whole state as it is. In panel view (which the view offers for comic
  archives only; the step resets the view mode for every book that is not an EPUB)
  \<^verbatim>\<open>goToNext\<close> on the last panel of a page that is not the last adds one to the page
  index, sets the panel index to \<open>-1\<close> and the view mode to page view, and empties the
  panel list.
\<close>

theorem page_turn_boundaries:
  "(viewMode s = PageMode \<and> currentPageIndex s = totalPages s - 1 \<longrightarrow> goToNext s = s) \<and>
   (viewMode s = PageMode \<and> currentPageIndex s = 0 \<longrightarrow> goToPrev s = s) \<and>
   (viewMode s = PanelMode \<and> currentPanelIndex s = int (length (panels s)) - 1 \<and>
    currentPageIndex s < totalPages s - 1 \<and> btype (book s) \<noteq> Epub \<longrightarrow>
      goToNext s =
        s\<lparr> currentPageIndex := currentPageIndex s + 1, panels := [],
           currentPanelIndex := - 1, viewMode := PageMode \<rparr>)"
  by (simp add: goToNext_def goToPrev_def)

text \<open>The last and the first page of the example, and the second of the two panels of its
  first page.\<close>

theorem page_turn_boundaries_witness:
  "goToNext (goToNext demo_loaded) = goToNext demo_loaded \<and>
   goToPrev demo_loaded = demo_loaded \<and>
   currentPanelIndex (goToNext demo_panel_view) = 1 \<and>
   currentPageIndex (goToNext (goToNext demo_panel_view)) = 1 \<and>
   currentPanelIndex (goToNext (goToNext demo_panel_view)) = - 1 \<and>
   viewMode (goToNext (goToNext demo_panel_view)) = PageMode"
proof -
  have l: "viewMode (goToNext demo_loaded) = PageMode \<and>
           currentPageIndex (goToNext demo_loaded) = totalPages (goToNext demo_loaded) - 1"
    by (simp add: demo_loaded_def run_defs)
  have f: "viewMode demo_loaded = PageMode \<and> currentPageIndex demo_loaded = 0"
    by (simp add: demo_loaded_def run_defs)
  have p: "viewMode (goToNext demo_panel_view) = PanelMode \<and>
           currentPanelIndex (goToNext demo_panel_view) =
             int (length (panels (goToNext demo_panel_view))) - 1 \<and>
           currentPageIndex (goToNext demo_panel_view) < totalPages (goToNext demo_panel_view) - 1 \<and>
           btype (book (goToNext demo_panel_view)) \<noteq> Epub"
    by (simp add: demo_panel_view_def demo_loaded_def run_defs)
  have i: "currentPanelIndex (goToNext demo_panel_view) = 1"
          "currentPageIndex (goToNext demo_panel_view) = 0"
    by (simp_all add: demo_panel_view_def demo_loaded_def run_defs)
  from page_turn_boundaries[of "goToNext demo_loaded"] l
  have a: "goToNext (goToNext demo_loaded) = goToNext demo_loaded" by blast
  from page_turn_boundaries[of demo_loaded] f
  have b: "goToPrev demo_loaded = demo_loaded" by blast
  from page_turn_boundaries[of "goToNext demo_panel_view"] p
  have c: "goToNext (goToNext demo_panel_view) =
        (goToNext demo_panel_view)\<lparr> currentPageIndex := currentPageIndex (goToNext demo_panel_view) + 1, panels := [],
           currentPanelIndex := - 1, viewMode := PageMode \<rparr>" by blast
  from a b i show ?thesis by (simp add: c)
qed

section \<open>Zoom\<close>

lemma handleZoom_range:
  "1 / 4 \<le> zoom (handleZoom d s) \<and> zoom (handleZoom d s) \<le> 5"
  by (simp add: zoom_defs Let_def)

lemma fold_handleZoom_range:
  "1 / 4 \<le> zoom s \<Longrightarrow> zoom s \<le> 5 \<Longrightarrow>
   1 / 4 \<le> zoom (fold handleZoom ds s) \<and> zoom (fold handleZoom ds s) \<le> 5"
proof (induction ds arbitrary: s)
  case Nil
  then show ?case by simp
next
  case (Cons d ds)
  have "1 / 4 \<le> zoom (handleZoom d s)" "zoom (handleZoom d s) \<le> 5"
    using handleZoom_range by simp_all
  then show ?case using Cons.IH by simp
qed

text \<open>
  Claim C9. For a zoom within \<open>[1/4, 5]\<close>, \<^verbatim>\<open>handleZoom\<close> moves the zoom by \<open>1/4\<close> in
  the direction asked and clamps the result to \<open>[1/4, 5]\<close>: the step is exact when the
  result stays in the interval and ends on the bound otherwise. It turns fit off, and
  no sequence of zoom steps leaves the interval. The zoom is a real number here: the values
  the view reaches are multiples of \<open>1/4\<close>, which the floating point numbers of the
  source hold exactly.
\<close>

theorem handleZoom_step_clamped:
  assumes "1 / 4 \<le> zoom s" and "zoom s \<le> 5"
  shows "zoom (handleZoom ZoomIn s) = max (1 / 4) (min 5 (zoom s + 1 / 4)) \<and>
         zoom (handleZoom ZoomOut s) = max (1 / 4) (min 5 (zoom s - 1 / 4)) \<and>
         (zoom s + 1 / 4 \<le> 5 \<longrightarrow> zoom (handleZoom ZoomIn s) = zoom s + 1 / 4) \<and>
         (1 / 4 \<le> zoom s - 1 / 4 \<longrightarrow> zoom (handleZoom ZoomOut s) = zoom s - 1 / 4) \<and>
         (5 < zoom s + 1 / 4 \<longrightarrow> zoom (handleZoom ZoomIn s) = 5) \<and>
         (zoom s - 1 / 4 < 1 / 4 \<longrightarrow> zoom (handleZoom ZoomOut s) = 1 / 4) \<and>
         \<not> isFitToScreen (handleZoom d s) \<and>
         1 / 4 \<le> zoom (fold handleZoom ds s) \<and> zoom (fold handleZoom ds s) \<le> 5"
proof -
  have steps:
    "zoom (handleZoom ZoomIn s) = max (1 / 4) (min 5 (zoom s + 1 / 4))"
    "zoom (handleZoom ZoomOut s) = max (1 / 4) (min 5 (zoom s - 1 / 4))"
    "\<not> isFitToScreen (handleZoom d s)"
    by (simp_all add: zoom_defs Let_def)
  have exact:
    "zoom s + 1 / 4 \<le> 5 \<longrightarrow> zoom (handleZoom ZoomIn s) = zoom s + 1 / 4"
    "1 / 4 \<le> zoom s - 1 / 4 \<longrightarrow> zoom (handleZoom ZoomOut s) = zoom s - 1 / 4"
    "5 < zoom s + 1 / 4 \<longrightarrow> zoom (handleZoom ZoomIn s) = 5"
    "zoom s - 1 / 4 < 1 / 4 \<longrightarrow> zoom (handleZoom ZoomOut s) = 1 / 4"
    using assms by (auto simp: steps)
  from steps exact fold_handleZoom_range[OF assms] show ?thesis by blast
qed

text \<open>Zoom steps from \<open>1\<close>: one in, one out, out to the lower bound and beyond, and
  in at the upper bound.\<close>

theorem handleZoom_step_clamped_witness:
  "zoom (handleZoom ZoomIn demo_loaded) = 5 / 4 \<and>
   zoom (handleZoom ZoomOut demo_loaded) = 3 / 4 \<and>
   zoom (handleZoom ZoomOut (handleZoom ZoomOut (handleZoom ZoomOut demo_loaded))) = 1 / 4 \<and>
   zoom (handleZoom ZoomOut (handleZoom ZoomOut (handleZoom ZoomOut (handleZoom ZoomOut demo_loaded)))) = 1 / 4 \<and>
   zoom (handleZoom ZoomIn (demo_loaded\<lparr> zoom := 5 \<rparr>)) = 5 \<and>
   \<not> isFitToScreen (handleZoom ZoomIn demo_loaded) \<and>
   zoom (fold handleZoom [ZoomIn, ZoomIn, ZoomOut] demo_loaded) \<le> 5"
proof -
  have z: "zoom demo_loaded = 1"
    by (simp add: demo_loaded_def loadBook_reset_def)
  have z3: "zoom (handleZoom ZoomOut (handleZoom ZoomOut (handleZoom ZoomOut demo_loaded))) = 1 / 4"
    by (simp add: z zoom_defs Let_def)
  from handleZoom_step_clamped[of demo_loaded ZoomIn "[ZoomIn, ZoomIn, ZoomOut]"] z
  have a: "zoom (handleZoom ZoomIn demo_loaded) = 5 / 4"
          "zoom (handleZoom ZoomOut demo_loaded) = 3 / 4"
          "\<not> isFitToScreen (handleZoom ZoomIn demo_loaded)"
          "zoom (fold handleZoom [ZoomIn, ZoomIn, ZoomOut] demo_loaded) \<le> 5"
    by simp_all
  from handleZoom_step_clamped[of "handleZoom ZoomOut (handleZoom ZoomOut (handleZoom ZoomOut demo_loaded))" ZoomOut "[]"] z3
  have b: "zoom (handleZoom ZoomOut (handleZoom ZoomOut (handleZoom ZoomOut (handleZoom ZoomOut demo_loaded)))) = 1 / 4"
    by simp
  from handleZoom_step_clamped[of "demo_loaded\<lparr> zoom := 5 \<rparr>" ZoomIn "[]"]
  have c: "zoom (handleZoom ZoomIn (demo_loaded\<lparr> zoom := 5 \<rparr>)) = 5"
    by simp
  from a b c z3 show ?thesis by blast
qed

section \<open>Opening a book\<close>

text \<open>
  Claim C3. The application opens a book by mounting the view on it: a mounted view is
  never given another book, so the state before \<^verbatim>\<open>loadBook\<close> is that of the initial
  cells. In the state of the mounted view, in which the load of the backend is still
  pending and no page is there, the cache is empty, the page index is \<open>0\<close>, the panel index
  is \<open>-1\<close>, the view is in page view, the zoom is \<open>1\<close> and fit is on. Whatever the
  state before, \<^verbatim>\<open>loadBook\<close> empties the cache and the panel list and writes the page
  index, the view mode, the zoom and the fit flag; the panel index is the initial value of
  its cell.
\<close>

theorem openDocument_resets:
  "cstate (mount b) = loadBook_reset b (useState_init b) \<and>
   loading (mount b) = [b] \<and>
   comicPages (cstate (mount b)) = [] \<and>
   pdfDoc (cstate (mount b)) = None \<and>
   panelsCache (cstate (mount b)) = Map.empty \<and>
   currentPageIndex (cstate (mount b)) = 0 \<and>
   currentPanelIndex (cstate (mount b)) = - 1 \<and>
   viewMode (cstate (mount b)) = PageMode \<and>
   zoom (cstate (mount b)) = 1 \<and>
   isFitToScreen (cstate (mount b)) \<and>
   panelsCache (loadBook_reset b s) = Map.empty \<and>
   panels (loadBook_reset b s) = [] \<and>
   currentPageIndex (loadBook_reset b s) = 0 \<and>
   viewMode (loadBook_reset b s) = PageMode \<and>
   zoom (loadBook_reset b s) = 1 \<and>
   isFitToScreen (loadBook_reset b s) \<and>
   comicPages (loadBook_reset b s) = [] \<and>
   pdfDoc (loadBook_reset b s) = None"
  by (simp add: mount_def loadBook_reset_def useState_init_def)

section \<open>A detection that settles late\<close>

lemma resume_returned:
  "getPanelsForPage outcome = Inr ps \<Longrightarrow>
   handleDetectPanels_resume p (Api outcome) s =
     s\<lparr> panels := ps, panelsCache := (panelsCache s)(page_id p \<mapsto> ps),
        viewMode := PanelMode, currentPanelIndex := 0, isPanelDetectionRunning := False \<rparr>"
  using getPanels_nonempty[of outcome ps] by (simp add: handleDetectPanels_resume_def)




section \<open>Cached pages\<close>

lemma cache_kept_detect:
  "panelsCache (fst (handleDetectPanels s)) = panelsCache s"
  by (auto simp: handleDetectPanels_def split: option.splits)

lemma cache_kept_panelView:
  "panelsCache (fst (panelViewClick s)) = panelsCache s"
  by (simp add: panelViewClick_def cache_kept_detect)

lemma cache_kept_resume:
  "panelsCache s k \<noteq> None \<Longrightarrow> panelsCache (handleDetectPanels_resume p r s) k \<noteq> None"
  by (auto simp: handleDetectPanels_resume_def detection_failed_def split: sum.splits)

lemma cache_kept_step:
  assumes "step e c = Some c'" and "\<not> is_BookChanged e" and "panelsCache (cstate c) k \<noteq> None"
  shows "panelsCache (cstate c') k \<noteq> None"
proof (cases e)
  case (BookChanged b)
  with assms show ?thesis by simp
next
  case (LoadSettled i r)
  with assms show ?thesis by (cases r) (auto split: if_splits)
next
  case (Relocated n)
  with assms show ?thesis by (auto split: if_splits)
next
  case NextPressed
  with assms show ?thesis by (auto simp: goToNext_def Let_def)
next
  case PrevPressed
  with assms show ?thesis by (auto simp: goToPrev_def Let_def)
next
  case DetectPressed
  with assms show ?thesis by (auto simp: started_def cache_kept_detect split: if_splits)
next
  case PageViewPressed
  with assms show ?thesis by (auto simp: pageViewClick_def split: if_splits)
next
  case PanelViewPressed
  with assms show ?thesis by (auto simp: started_def cache_kept_panelView split: if_splits)
next
  case (ZoomPressed d)
  with assms show ?thesis by (auto simp: handleZoom_def Let_def split: if_splits)
next
  case ZoomLabelPressed
  with assms show ?thesis by (auto simp: zoomLabelClick_def split: if_splits)
next
  case FitPressed
  with assms show ?thesis by (auto simp: toggleFitToScreen_def Let_def split: if_splits)
next
  case (DetectionSettled i r)
  with assms have "c' = c\<lparr> cstate := handleDetectPanels_resume (detecting c ! i) r (cstate c),
                     detecting := remove_nth i (detecting c) \<rparr>" by (auto split: if_splits)
  then show ?thesis using cache_kept_resume[OF assms(3)] by simp
qed

lemma cache_kept_run:
  "run es c = Some c' \<Longrightarrow> no_book_change es \<Longrightarrow> panelsCache (cstate c) k \<noteq> None \<Longrightarrow>
   panelsCache (cstate c') k \<noteq> None"
proof (induction es arbitrary: c)
  case Nil
  then show ?case by simp
next
  case (Cons e es)
  then obtain c1 where s: "step e c = Some c1" and r: "run es c1 = Some c'"
    by (auto split: option.splits)
  from Cons.prems have n: "\<not> is_BookChanged e" "no_book_change es"
    by (simp_all add: no_book_change_def)
  from cache_kept_step[OF s n(1) Cons.prems(3)] Cons.IH[OF r n(2)] show ?case by blast
qed

lemma cache_hit:
  "btype (book s) = Cbz \<Longrightarrow> js_index (comicPages s) (currentPageIndex s) = Some p \<Longrightarrow>
   url p \<noteq> [] \<Longrightarrow> panelsCache s (page_id p) = Some ps \<Longrightarrow>
   handleDetectPanels s =
     (s\<lparr> panels := ps, viewMode := PanelMode, currentPanelIndex := 0 \<rparr>, None)"
  by (auto simp: handleDetectPanels_def js_index_def split: if_splits)

text \<open>
  Claim C7, as amended. For a page of a comic archive whose identity has a cache entry,
  \<^verbatim>\<open>handleDetectPanels\<close> starts no request and sets the panel list from the cache, panel
  view and panel \<open>0\<close>. A cache entry stays through every run without a change of book.
  So a request that returned panels is not repeated: the next call on that page starts no
  request. A request that failed leaves no entry, and the next call on that page starts a
  request again.
\<close>

theorem cached_page_not_requested:
  "(btype (book s) = Cbz \<and> js_index (comicPages s) (currentPageIndex s) = Some p \<and>
    url p \<noteq> [] \<and> panelsCache s (page_id p) = Some ps \<longrightarrow>
      handleDetectPanels s =
        (s\<lparr> panels := ps, viewMode := PanelMode, currentPanelIndex := 0 \<rparr>, None)) \<and>
   (run es c = Some c' \<and> no_book_change es \<and> panelsCache (cstate c) k \<noteq> None \<longrightarrow>
      panelsCache (cstate c') k \<noteq> None) \<and>
   (handleDetectPanels s0 = (s1, Some q) \<and> getPanelsForPage outcome = Inr qs \<longrightarrow>
      snd (handleDetectPanels (handleDetectPanels_resume q (Api outcome) s1)) = None) \<and>
   (handleDetectPanels s0 = (s1, Some q) \<and> awaited r = Inl m \<longrightarrow>
      snd (handleDetectPanels (handleDetectPanels_resume q r s1)) = Some q)"
proof -
  have hit: "handleDetectPanels s =
        (s\<lparr> panels := ps, viewMode := PanelMode, currentPanelIndex := 0 \<rparr>, None)"
    if "btype (book s) = Cbz" "js_index (comicPages s) (currentPageIndex s) = Some p"
       "url p \<noteq> []" "panelsCache s (page_id p) = Some ps"
    using that by (rule cache_hit)
  have kept: "panelsCache (cstate c') k \<noteq> None"
    if "run es c = Some c'" "no_book_change es" "panelsCache (cstate c) k \<noteq> None"
    using that by (rule cache_kept_run)
  have again: "snd (handleDetectPanels (handleDetectPanels_resume q (Api outcome) s1)) = None"
    if "handleDetectPanels s0 = (s1, Some q)" "getPanelsForPage outcome = Inr qs"
    using request_started[OF that(1)] resume_returned[OF that(2), of q s1]
    by (simp add: handleDetectPanels_def js_index_def split: if_splits)
  have retry: "snd (handleDetectPanels (handleDetectPanels_resume q r s1)) = Some q"
    if "handleDetectPanels s0 = (s1, Some q)" "awaited r = Inl m"
    using request_started[OF that(1)] that(2)
    by (auto simp: handleDetectPanels_def handleDetectPanels_resume_def detection_failed_def
        js_index_def split: if_splits)
  from hit kept again retry show ?thesis by blast
qed

text \<open>A detection of the first page is rejected by the provider and asked for again, and
  the provider answers the second request: two requests for one page in one session, with
  no change of book, and no cache entry when the second one starts.\<close>

theorem cached_page_not_requested_counterexample:
  "no_book_change retry_trace \<and>
   map_option issued (run retry_trace (mount demo_book)) = Some [page_id page0, page_id page0] \<and>
   map_option detecting (run retry_trace (mount demo_book)) = Some [] \<and>
   map_option (cached (page_id page0)) (reader_after (take 4 retry_trace) demo_book) = Some None"
  by (simp add: retry_trace_def no_book_change_def cached_def run_defs valid_panel_def)

text \<open>The first page of the example: cached; still cached after leaving the page and
  coming back; not requested again after its panels were returned; requested again after
  a rejection.\<close>

theorem cached_page_not_requested_witness:
  "handleDetectPanels demo_panel_view =
     (demo_panel_view\<lparr> panels := [panelA, panelB], viewMode := PanelMode,
                        currentPanelIndex := 0 \<rparr>, None) \<and>
   cached (page_id page0) (cstate (the (run browse_trace demo_config))) \<noteq> None \<and>
   snd (handleDetectPanels demo_panel_view) = None \<and>
   snd (handleDetectPanels
     (handleDetectPanels_resume page0 rate_limited (fst (handleDetectPanels demo_loaded)))) =
       Some page0"
proof -
  have a: "btype (book demo_panel_view) = Cbz \<and>
        js_index (comicPages demo_panel_view) (currentPageIndex demo_panel_view) = Some page0 \<and>
        url page0 \<noteq> [] \<and> panelsCache demo_panel_view (page_id page0) = Some [panelA, panelB]"
    by (simp add: demo_panel_view_def demo_loaded_def run_defs valid_panel_def)
  have r: "run browse_trace demo_config = Some (the (run browse_trace demo_config)) \<and>
        no_book_change browse_trace \<and> panelsCache (cstate demo_config) (page_id page0) \<noteq> None"
    by (simp add: browse_trace_def demo_config_def no_book_change_def demo_panel_view_def
        demo_loaded_def run_defs valid_panel_def)
  have h: "handleDetectPanels demo_loaded = (fst (handleDetectPanels demo_loaded), Some page0)"
    by (simp add: demo_loaded_def run_defs)
  have g: "getPanelsForPage two_panels_response = Inr [panelA, panelB]"
    by (simp add: two_panels_response_def two_panels_text_def getPanelsForPage_def
        panelA_def panelB_def own_property_def)
  have f: "awaited rate_limited = Inl rate_limit_message"
    by (simp add: run_defs)
  from cached_page_not_requested[of demo_panel_view page0 "[panelA, panelB]" browse_trace
      demo_config "the (run browse_trace demo_config)" "page_id page0"
      demo_loaded "fst (handleDetectPanels demo_loaded)" page0
      two_panels_response "[panelA, panelB]" rate_limited rate_limit_message]
    a r h g f
  show ?thesis unfolding cached_def demo_panel_view_def two_panels_def by blast
qed

section \<open>The pages of a comic archive\<close>

lemma length_insert_by: "length (insert_by cmp a bs) = Suc (length bs)"
  by (induction bs) auto

lemma set_insert_by: "set (insert_by cmp a bs) = insert a (set bs)"
  by (induction bs) auto

lemma length_sorted_by: "length (foldr (insert_by cmp) fs []) = length fs"
  by (induction fs) (auto simp: length_insert_by)

lemma set_sorted_by: "set (foldr (insert_by cmp) fs []) = set fs"
  by (induction fs) (auto simp: set_insert_by)

lemma set_getSortedImageFiles:
  "set (getSortedImageFiles cmp files) = {f \<in> set files. is_image_file f}"
  by (simp add: getSortedImageFiles_def set_sorted_by)

lemma map_filter_page_of:
  "map page_id (List.map_filter page_of fs) = map entry_name (filter decodes fs)"
  by (induction fs) (auto simp: List.map_filter_def page_of_def decodes_def split: option.splits)

lemma length_map_filter_page_of:
  "length (List.map_filter page_of fs) = length (filter decodes fs)"
  using arg_cong[OF map_filter_page_of, of length fs] by simp

lemma sorted_insert_by:
  assumes "total_preorder cmp"
    and "sorted_wrt (in_order cmp) (map entry_name bs)"
  shows "sorted_wrt (in_order cmp) (map entry_name (insert_by cmp a bs))"
  using assms(2)
proof (induction bs)
  case Nil
  show ?case by simp
next
  case (Cons b bs)
  from assms(1) have total: "\<And>x y. in_order cmp x y \<or> in_order cmp y x"
    and trans: "\<And>x y z. in_order cmp x y \<Longrightarrow> in_order cmp y z \<Longrightarrow> in_order cmp x z"
    unfolding total_preorder_def by blast+
  show ?case
  proof (cases "cmp (entry_name a) (entry_name b) \<le> 0")
    case True
    then have ab: "in_order cmp (entry_name a) (entry_name b)" by (simp add: in_order_def)
    from Cons.prems have "\<forall>x \<in> set bs. in_order cmp (entry_name b) (entry_name x)" by simp
    with ab trans have "\<forall>x \<in> set bs. in_order cmp (entry_name a) (entry_name x)" by blast
    with True ab Cons.prems show ?thesis by simp
  next
    case False
    then have "\<not> in_order cmp (entry_name a) (entry_name b)" by (simp add: in_order_def)
    with total have ba: "in_order cmp (entry_name b) (entry_name a)" by blast
    from Cons.prems have tail: "sorted_wrt (in_order cmp) (map entry_name bs)"
      and le: "\<forall>x \<in> set bs. in_order cmp (entry_name b) (entry_name x)" by simp_all
    from ba le have "\<forall>x \<in> set (insert_by cmp a bs). in_order cmp (entry_name b) (entry_name x)"
      by (simp add: set_insert_by)
    with False Cons.IH[OF tail] show ?thesis by simp
  qed
qed

lemma sorted_foldr_insert_by:
  "total_preorder cmp \<Longrightarrow>
   sorted_wrt (in_order cmp) (map entry_name (foldr (insert_by cmp) fs []))"
  by (induction fs) (simp_all add: sorted_insert_by)

lemma sorted_getSortedImageFiles:
  "total_preorder cmp \<Longrightarrow>
   sorted_wrt (in_order cmp) (map entry_name (getSortedImageFiles cmp files))"
  by (simp add: getSortedImageFiles_def sorted_foldr_insert_by)

lemma sorted_getComicPages:
  assumes "total_preorder cmp"
  shows "sorted_wrt (in_order cmp) (map page_id (getComicPages cmp files))"
proof -
  have "sorted_wrt (\<lambda>f g. in_order cmp (entry_name f) (entry_name g))
          (getSortedImageFiles cmp files)"
    using sorted_getSortedImageFiles[OF assms] by (simp add: sorted_wrt_map)
  then have "sorted_wrt (\<lambda>f g. in_order cmp (entry_name f) (entry_name g))
          (filter decodes (getSortedImageFiles cmp files))"
    by (rule sorted_wrt_filter)
  then show ?thesis
    by (simp add: getComicPages_def map_filter_page_of sorted_wrt_map)
qed

lemma length_filter_less: "(length (filter P xs) < length xs) = (\<exists>x \<in> set xs. \<not> P x)"
proof (induction xs)
  case Nil
  show ?case by simp
next
  case (Cons x xs)
  have "length (filter P xs) \<le> length xs" by simp
  with Cons show ?case by auto
qed

text \<open>
  Claim C10. The pages that \<^verbatim>\<open>getComicPages\<close> returns are the sorted image entries that
  decode, in the order of the sort: an entry that fails to decode is dropped. The
  \<^verbatim>\<open>totalPages\<close> recorded for the library item counts every image entry, decoded or
  not. So the page count of the session is at most the recorded one, and strictly smaller
  exactly when some image entry fails to decode. When the comparison of names is a total
  preorder, as the numeric collation is, the image entries are sorted by it, and so are
  the pages that remain.
\<close>

theorem getComicPages_drops_undecodable:
  "map page_id (getComicPages cmp files) =
     map entry_name (filter decodes (getSortedImageFiles cmp files)) \<and>
   int (length (getComicPages cmp files)) \<le> cbz_totalPages cmp files \<and>
   cbz_totalPages cmp files = int (length (filter is_image_file files)) \<and>
   (int (length (getComicPages cmp files)) < cbz_totalPages cmp files) =
     (\<exists>f \<in> set files. is_image_file f \<and> \<not> decodes f) \<and>
   (total_preorder cmp \<longrightarrow>
      sorted_wrt (in_order cmp) (map entry_name (getSortedImageFiles cmp files)) \<and>
      sorted_wrt (in_order cmp) (map page_id (getComicPages cmp files)))"
proof -
  have ids: "map page_id (getComicPages cmp files) =
     map entry_name (filter decodes (getSortedImageFiles cmp files))"
    by (simp add: getComicPages_def map_filter_page_of)
  have len: "length (getComicPages cmp files) =
      length (filter decodes (getSortedImageFiles cmp files))"
    by (simp add: getComicPages_def length_map_filter_page_of)
  have total: "cbz_totalPages cmp files = int (length (filter is_image_file files))"
    by (simp add: cbz_totalPages_def getSortedImageFiles_def length_sorted_by)
  have le: "int (length (getComicPages cmp files)) \<le> cbz_totalPages cmp files"
    by (simp add: len cbz_totalPages_def)
  have "(length (filter decodes (getSortedImageFiles cmp files))
           < length (getSortedImageFiles cmp files)) =
        (\<exists>f \<in> set (getSortedImageFiles cmp files). \<not> decodes f)"
    by (rule length_filter_less)
  then have less: "(int (length (getComicPages cmp files)) < cbz_totalPages cmp files) =
     (\<exists>f \<in> set files. is_image_file f \<and> \<not> decodes f)"
    by (auto simp: len cbz_totalPages_def set_getSortedImageFiles)
  have sorted: "sorted_wrt (in_order cmp) (map entry_name (getSortedImageFiles cmp files)) \<and>
      sorted_wrt (in_order cmp) (map page_id (getComicPages cmp files))"
    if "total_preorder cmp"
    using that sorted_getSortedImageFiles sorted_getComicPages by blast
  from ids le total less sorted show ?thesis by blast
qed

lemmas archive_defs =
  getSortedImageFiles_def demo_archive_def demo_compare_def is_image_file_def
  is_image_name_def ends_with_def ascii_lower_def decodes_def

text \<open>An archive of three image entries of which one does not decode: two pages, in sorted
  order, against a recorded count of three.\<close>

theorem getComicPages_drops_undecodable_witness:
  "map entry_name (getSortedImageFiles demo_compare demo_archive) =
     [''2.jpg'', ''10.PNG'', ''100.jpeg''] \<and>
   map page_id (getComicPages demo_compare demo_archive) = [''2.jpg'', ''100.jpeg''] \<and>
   cbz_totalPages demo_compare demo_archive = 3 \<and>
   int (length (getComicPages demo_compare demo_archive)) < cbz_totalPages demo_compare demo_archive \<and>
   sorted_wrt (in_order demo_compare) (map page_id (getComicPages demo_compare demo_archive))"
proof -
  have s: "map entry_name (getSortedImageFiles demo_compare demo_archive) =
             [''2.jpg'', ''10.PNG'', ''100.jpeg'']"
    by (simp add: archive_defs)
  have d: "map entry_name (filter decodes (getSortedImageFiles demo_compare demo_archive)) =
             [''2.jpg'', ''100.jpeg'']"
    by (simp add: archive_defs)
  have t: "int (length (filter is_image_file demo_archive)) = 3"
    by (simp add: archive_defs)
  have u: "\<exists>f \<in> set demo_archive. is_image_file f \<and> \<not> decodes f"
    by (simp add: archive_defs)
  have p: "total_preorder demo_compare"
    by (auto simp: total_preorder_def in_order_def demo_compare_def)
  from getComicPages_drops_undecodable[of demo_compare demo_archive] p
  have o: "sorted_wrt (in_order demo_compare) (map page_id (getComicPages demo_compare demo_archive))"
    by blast
  from getComicPages_drops_undecodable[of demo_compare demo_archive] s d t u o
  show ?thesis by simp
qed

end
